theory Spec2Isabelle
  imports Complex_Main
begin

section \<open>ndvi.js: the COG window reader\<close>

text \<open>
  JavaScript numbers are modelled as \<^typ>\<open>real\<close>. Where a claim depends on the rounding of
  IEEE doubles, the rounding is part of the model: the subtraction and the division from
  which \<^verbatim>\<open>readCOGWindow\<close> takes its pixel bounds are rounded to the nearest double
  (\<open>fl64\<close> below). Elsewhere the arithmetic of the source is read as exact arithmetic.
  Values that the source obtains from \<^verbatim>\<open>Math.floor\<close>, \<^verbatim>\<open>Math.ceil\<close> and \<^verbatim>\<open>Math.round\<close> are
  integers (\<^typ>\<open>int\<close>); \<^verbatim>\<open>Math.round\<close> rounds a half upwards, which is what \<^const>\<open>round\<close>
  does. A thrown exception is a value \<open>Inl e\<close> of a sum type, \<^verbatim>\<open>null\<close> is \<open>None\<close>.
\<close>

datatype error = TypeError | ProjectionError

text \<open>What \<^verbatim>\<open>readCOGWindow\<close> reads from the opened image: \<^verbatim>\<open>getOrigin()\<close>,
  \<^verbatim>\<open>getResolution()\<close>, \<^verbatim>\<open>getWidth()\<close>, \<^verbatim>\<open>getHeight()\<close> and the GeoKey directory.\<close>

record geotiff_image =
  originX :: real
  originY :: real
  xRes :: real
  yRes :: real
  fullW :: nat
  fullH :: nat
  geoKeyDirectory :: "nat list"

record utm_coords =
  xmin :: real
  ymin :: real
  xmax :: real
  ymax :: real

record band_window =
  data :: "real list"
  width :: nat
  height :: nat

text \<open>\<^verbatim>\<open>getEPSG\<close>: the loop \<^verbatim>\<open>for (i = 4; i < geoKeys.length; i += 4)\<close> reads
  \<^verbatim>\<open>geoKeys[i]\<close> and \<^verbatim>\<open>geoKeys[i + 3]\<close>; a read past the end is \<^verbatim>\<open>undefined\<close>, for which
  \<^verbatim>\<open>val > 0\<close> is false. \<open>scanGeoKeys\<close> is the loop from index \<open>i\<close> on.\<close>

fun scanGeoKeys :: "nat list \<Rightarrow> nat" where
  "scanGeoKeys (keyId # k1 # k2 # val # rest) =
     (if keyId = 3072 \<and> val > 0 then val
      else if keyId = 2048 \<and> val > 0 then val
      else scanGeoKeys rest)"
| "scanGeoKeys _ = 32601"

definition getEPSG :: "geotiff_image \<Rightarrow> nat" where
  "getEPSG img = scanGeoKeys (drop 4 (geoKeyDirectory img))"

text \<open>Reprojection of the AOI from WGS84 into the image CRS. \<open>proj4 epsg p\<close> stands for the
  library call \<^verbatim>\<open>proj4('EPSG:4326', `EPSG:${epsg}`, p)\<close>; it is a parameter, and \<open>None\<close> is
  the library throwing. The four corners are projected in the order of the source.\<close>

definition reprojectAOI ::
  "(nat \<Rightarrow> real \<times> real \<Rightarrow> (real \<times> real) option) \<Rightarrow> nat \<Rightarrow> real \<times> real \<times> real \<times> real
     \<Rightarrow> error + utm_coords" where
  "reprojectAOI proj4 epsg bboxWGS84 =
     (case bboxWGS84 of (west, south, east, north) \<Rightarrow>
        if epsg = 4326 then
          Inr \<lparr>xmin = west, ymin = south, xmax = east, ymax = north\<rparr>
        else
          (case (proj4 epsg (west, south), proj4 epsg (east, south),
                 proj4 epsg (east, north), proj4 epsg (west, north)) of
             (Some p1, Some p2, Some p3, Some p4) \<Rightarrow>
               (let pts = [p1, p2, p3, p4] in
                Inr \<lparr>xmin = Min (set (map fst pts)), ymin = Min (set (map snd pts)),
                     xmax = Max (set (map fst pts)), ymax = Max (set (map snd pts))\<rparr>)
           | _ \<Rightarrow> Inl ProjectionError))"

subsection \<open>Rounding to the nearest double\<close>

text \<open>The number of binary digits of a natural number.\<close>

fun bits :: "nat \<Rightarrow> nat" where
  "bits n = (if n = 0 then 0 else Suc (bits (n div 2)))"

declare bits.simps [simp del]

text \<open>The binary exponent of a positive real \<open>y\<close>: the integer \<open>e\<close> with
  \<open>2^e \<le> y < 2^(e+1)\<close>.\<close>

definition expo :: "real \<Rightarrow> int" where
  "expo y = (if 1 \<le> y then int (bits (nat \<lfloor>y\<rfloor>)) - 1
             else - int (bits (nat (\<lceil>1 / y\<rceil> - 1))))"

text \<open>Rounding to the nearest integer, a tie to the even one.\<close>

definition rne :: "real \<Rightarrow> int" where
  "rne x = (let f = \<lfloor>x\<rfloor>; d = x - real_of_int f
            in if d < 1 / 2 then f else if 1 / 2 < d then f + 1
               else if even f then f else f + 1)"

text \<open>The double nearest to a real \<open>x\<close> (IEEE 754 binary64, round to nearest, ties to
  even): a significand of 53 bits, so a spacing of \<open>2^(e-52)\<close> at exponent \<open>e\<close>, and the
  spacing \<open>2^(-1074)\<close> of the subnormal numbers below \<open>2^(-1022)\<close>. Beyond the
  largest finite double the source has an infinity and this definition the rounded
  real; the properties below bound the extent of the raster, so that the differences and
  the quotients on which they depend are finite.\<close>

definition fl64 :: "real \<Rightarrow> real" where
  "fl64 x = (if x = 0 then 0
             else (let e = max (expo \<bar>x\<bar>) (- 1022);
                       u = 2 powi (e - 52)
                   in real_of_int (rne (x / u)) * u))"

text \<open>The value of the expression \<^verbatim>\<open>(p - origin) / res\<close> on doubles: the difference is
  rounded, then the quotient.\<close>

definition js_quot :: "real \<Rightarrow> real \<Rightarrow> real \<Rightarrow> real" where
  "js_quot p origin res = fl64 (fl64 (p - origin) / res)"

subsection \<open>The pixel window\<close>

text \<open>UTM coordinates to pixel columns and rows: the four raw bounds
  \<open>(col0, row0, col1, row1)\<close>.\<close>

definition rawWindow :: "geotiff_image \<Rightarrow> utm_coords \<Rightarrow> int \<times> int \<times> int \<times> int" where
  "rawWindow img utmCoords =
     (let col0 = \<lfloor>js_quot (xmin utmCoords) (originX img) (xRes img)\<rfloor>;
          row0 = \<lfloor>js_quot (ymax utmCoords) (originY img) (yRes img)\<rfloor>;
          col1 = \<lceil>js_quot (xmax utmCoords) (originX img) (xRes img)\<rceil>;
          row1 = \<lceil>js_quot (ymin utmCoords) (originY img) (yRes img)\<rceil>
      in (col0, row0, col1, row1))"

text \<open>Clamping to the image bounds, and the \<^verbatim>\<open>null\<close> result when the clamped window is
  empty.\<close>

definition clampWindow :: "geotiff_image \<Rightarrow> int \<times> int \<times> int \<times> int \<Rightarrow> (int \<times> int \<times> int \<times> int) option" where
  "clampWindow img w =
     (case w of (c0, r0, c1, r1) \<Rightarrow>
        (let col0 = max 0 c0;
             row0 = max 0 r0;
             col1 = min (int (fullW img)) c1;
             row1 = min (int (fullH img)) r1
         in if col1 \<le> col0 \<or> row1 \<le> row0 then None
            else Some (col0, row0, col1, row1)))"

text \<open>The output size, capped at 1024 with the aspect ratio kept.\<close>

definition outputScale :: "int \<Rightarrow> int \<Rightarrow> real" where
  "outputScale winW winH = min 1 (1024 / real_of_int (max winW winH))"

definition outputSize :: "int \<times> int \<times> int \<times> int \<Rightarrow> int \<times> int" where
  "outputSize w =
     (case w of (col0, row0, col1, row1) \<Rightarrow>
        (let winW = col1 - col0;
             winH = row1 - row0;
             scale = outputScale winW winH;
             outW = max 1 (round (real_of_int winW * scale));
             outH = max 1 (round (real_of_int winH * scale))
         in (outW, outH)))"

text \<open>\<^verbatim>\<open>readCOGWindow\<close>: \<open>readRasters\<close> stands for the windowed read
  \<^verbatim>\<open>image.readRasters({window, width, height})\<close>, whose first band is returned.\<close>

definition readCOGWindow ::
  "(nat \<Rightarrow> real \<times> real \<Rightarrow> (real \<times> real) option)
     \<Rightarrow> (int \<times> int \<times> int \<times> int \<Rightarrow> int \<Rightarrow> int \<Rightarrow> real list)
     \<Rightarrow> geotiff_image \<Rightarrow> real \<times> real \<times> real \<times> real \<Rightarrow> error + band_window option" where
  "readCOGWindow proj4 readRasters img bboxWGS84 =
     (case reprojectAOI proj4 (getEPSG img) bboxWGS84 of
        Inl e \<Rightarrow> Inl e
      | Inr utmCoords \<Rightarrow>
          (case clampWindow img (rawWindow img utmCoords) of
             None \<Rightarrow> Inr None
           | Some w \<Rightarrow>
               (case outputSize w of (outW, outH) \<Rightarrow>
                  Inr (Some \<lparr>data = readRasters w outW outH,
                             width = nat outW, height = nat outH\<rparr>))))"

section \<open>ndvi.js: the NDVI computation\<close>

text \<open>The samples of a band are the numbers of a typed array, here a list of reals. A
  read \<^verbatim>\<open>red[i]\<close> past the end is \<^verbatim>\<open>undefined\<close>, which the arithmetic that follows turns
  into \<^verbatim>\<open>NaN\<close>. \<^verbatim>\<open>NaN\<close> is \<open>None\<close>. The result array is a \<^verbatim>\<open>Float32Array\<close>; the rounding
  of a value to single precision when it is stored is not part of the model.\<close>

definition sample :: "real list \<Rightarrow> nat \<Rightarrow> real option" where
  "sample xs i = (if i < length xs then Some (xs ! i) else None)"

definition SCALE :: real where
  "SCALE = 0.0000275"

definition OFFSET :: real where
  "OFFSET = - 0.2"

definition reflectance :: "real \<Rightarrow> real" where
  "reflectance raw = max 0 (min 1 (raw * SCALE + OFFSET))"

text \<open>The value \<^verbatim>\<open>v\<close> of one loop iteration, from the two raw samples. With a sample
  that is \<^verbatim>\<open>undefined\<close> the sum \<^verbatim>\<open>denom\<close> is \<^verbatim>\<open>NaN\<close>, the test \<^verbatim>\<open>denom > 0\<close> fails and
  \<^verbatim>\<open>v\<close> is \<^verbatim>\<open>NaN\<close>.\<close>

definition ndviValue :: "real option \<Rightarrow> real option \<Rightarrow> real option" where
  "ndviValue redRaw nirRaw =
     (case (redRaw, nirRaw) of
        (Some a, Some b) \<Rightarrow>
          (let r = reflectance a;
               n = reflectance b;
               denom = n + r
           in if denom > 0 then Some ((n - r) / denom) else None)
      | _ \<Rightarrow> None)"

text \<open>\<^verbatim>\<open>minV\<close> and \<^verbatim>\<open>maxV\<close> start at \<^verbatim>\<open>Infinity\<close> and \<^verbatim>\<open>-Infinity\<close>, so they range over
  the reals with the two infinities.\<close>

datatype number = Finite real | PosInfinity | NegInfinity

fun js_less :: "number \<Rightarrow> number \<Rightarrow> bool" where
  "js_less (Finite x) (Finite y) = (x < y)"
| "js_less NegInfinity NegInfinity = False"
| "js_less NegInfinity _ = True"
| "js_less PosInfinity _ = False"
| "js_less (Finite x) PosInfinity = True"
| "js_less (Finite x) NegInfinity = False"

record ndvi_stats =
  stats_min :: number
  stats_mean :: real
  stats_max :: number
  stats_vegPct :: real

record ndvi_result =
  ndvi :: "real option list"
  ndviWidth :: nat
  ndviHeight :: nat
  stats :: ndvi_stats

text \<open>The variables of the loop of \<^verbatim>\<open>computeNDVIArray\<close>.\<close>

record ndvi_loop =
  l_ndvi :: "real option list"
  l_sum :: real
  l_cnt :: nat
  l_veg :: nat
  l_minV :: number
  l_maxV :: number

text \<open>One iteration, at index \<open>i\<close>.\<close>

definition ndviStep :: "real list \<Rightarrow> real list \<Rightarrow> nat \<Rightarrow> ndvi_loop \<Rightarrow> ndvi_loop" where
  "ndviStep red nir i s =
     (let v = ndviValue (sample red i) (sample nir i);
          s1 = s\<lparr>l_ndvi := (l_ndvi s)[i := v]\<rparr>
      in case v of
           None \<Rightarrow> s1
         | Some x \<Rightarrow>
             s1\<lparr>l_sum := l_sum s + x,
                l_cnt := l_cnt s + 1,
                l_minV := (if js_less (Finite x) (l_minV s) then Finite x else l_minV s),
                l_maxV := (if js_less (l_maxV s) (Finite x) then Finite x else l_maxV s),
                l_veg := (if x > 0.3 then l_veg s + 1 else l_veg s)\<rparr>)"

definition ndviLoop :: "real list \<Rightarrow> real list \<Rightarrow> nat \<Rightarrow> ndvi_loop" where
  "ndviLoop red nir n =
     fold (ndviStep red nir) [0..<n]
       \<lparr>l_ndvi = replicate n (Some 0), l_sum = 0, l_cnt = 0, l_veg = 0,
        l_minV = PosInfinity, l_maxV = NegInfinity\<rparr>"

definition computeNDVIArray :: "band_window \<Rightarrow> band_window \<Rightarrow> ndvi_result" where
  "computeNDVIArray redData nirData =
     (let w = min (width redData) (width nirData);
          h = min (height redData) (height nirData);
          s = ndviLoop (data redData) (data nirData) (w * h);
          mean = (if l_cnt s > 0 then l_sum s / real (l_cnt s) else 0);
          vegPct = (if l_cnt s > 0 then real (l_veg s) / real (l_cnt s) * 100 else 0)
      in \<lparr>ndvi = l_ndvi s, ndviWidth = w, ndviHeight = h,
          stats = \<lparr>stats_min = l_minV s, stats_mean = mean,
                   stats_max = l_maxV s, stats_vegPct = vegPct\<rparr>\<rparr>)"

section \<open>ndvi.js: colormaps and the canvas renderer\<close>

text \<open>\<^verbatim>\<open>stops[i]\<close> for a number \<open>i\<close>: outside the array it is \<^verbatim>\<open>undefined\<close>.\<close>

definition stopAt :: "(int \<times> int \<times> int) list \<Rightarrow> int \<Rightarrow> (int \<times> int \<times> int) option" where
  "stopAt stops i = (if 0 \<le> i \<and> i < int (length stops) then Some (stops ! nat i) else None)"

text \<open>\<^verbatim>\<open>interp\<close>: reading a component of an \<^verbatim>\<open>undefined\<close> stop throws a TypeError.\<close>

definition interp :: "real \<Rightarrow> (int \<times> int \<times> int) list \<Rightarrow> error + (int \<times> int \<times> int)" where
  "interp t stops =
     (let n = int (length stops) - 1;
          pos = t * real_of_int n;
          i = min \<lfloor>pos\<rfloor> (n - 1);
          f = pos - real_of_int i;
          a = stopAt stops i;
          b = (case stopAt stops (i + 1) of Some s \<Rightarrow> Some s | None \<Rightarrow> stopAt stops n)
      in case (a, b) of
           (Some (a0, a1, a2), Some (b0, b1, b2)) \<Rightarrow>
             Inr (round (real_of_int a0 + real_of_int (b0 - a0) * f),
                  round (real_of_int a1 + real_of_int (b1 - a1) * f),
                  round (real_of_int a2 + real_of_int (b2 - a2) * f))
         | _ \<Rightarrow> Inl TypeError)"

definition applyColormap :: "real \<Rightarrow> string \<Rightarrow> error + (int \<times> int \<times> int)" where
  "applyColormap t name =
     (if name = ''greens'' then
        interp t [(247,252,245),(0,109,44)]
      else if name = ''viridis'' then
        interp t [(68,1,84),(59,82,139),(33,145,140),(94,201,98),(253,231,37)]
      else if name = ''spectral'' then
        interp t [(158,1,66),(213,62,79),(253,174,97),(255,255,191),(171,221,164),(43,131,186),(94,79,162)]
      else if name = ''ylgn'' then
        interp t [(255,255,229),(120,198,121),(0,104,55)]
      else
        interp t [(165,0,38),(215,48,39),(244,109,67),(253,174,97),(254,224,139),(255,255,191),
                  (217,239,139),(166,217,106),(102,189,99),(26,152,80),(0,104,55)])"

text \<open>The body of the loop of \<^verbatim>\<open>renderNDVIToCanvas\<close> for the sample \<^verbatim>\<open>v = ndvi[i]\<close>: the
  four bytes \<open>(r, g, b, a)\<close> written for pixel \<open>i\<close>.\<close>

definition renderPixel :: "real option \<Rightarrow> string \<Rightarrow> error + (int \<times> int \<times> int \<times> int)" where
  "renderPixel v colormapName =
     (case v of
        Some x \<Rightarrow>
          (let t = max 0 (min 1 ((x + 1) / 2)) in
           case applyColormap t colormapName of
             Inl e \<Rightarrow> Inl e
           | Inr (r, g, b) \<Rightarrow> Inr (r, g, b, 255))
      | None \<Rightarrow> Inr (30, 30, 30, 0))"

section \<open>stac.js: URL signing\<close>

text \<open>What one call of \<^verbatim>\<open>fetch\<close> gives: a response with its status and the \<^verbatim>\<open>href\<close> of
  its JSON body, or a rejected promise (a network failure). \<^verbatim>\<open>res.ok\<close> is a status from
  200 to 299. The body of a response that is \<^verbatim>\<open>ok\<close> is taken to parse.\<close>

datatype response = Response nat string | NetworkFailure

definition res_ok :: "nat \<Rightarrow> bool" where
  "res_ok status = (200 \<le> status \<and> status \<le> 299)"

datatype sign_error =
    HttpFailure nat      \<comment> \<open>\<^verbatim>\<open>URL signing failed: HTTP ${res.status}\<close>\<close>
  | RateLimited          \<comment> \<open>\<^verbatim>\<open>URL signing failed after 4 attempts (rate limited)\<close>\<close>
  | FetchRejected        \<comment> \<open>what \<^verbatim>\<open>fetch\<close> threw\<close>

text \<open>The ways out of the \<^verbatim>\<open>try\<close> block of one attempt: \<^verbatim>\<open>return data.href\<close>, the
  \<^verbatim>\<open>continue\<close> after the sleep of a 429, or an exception, which the \<^verbatim>\<open>catch\<close> of the same
  iteration receives.\<close>

datatype try_exit = Return string | Continue | Throw sign_error

definition tryBody :: "response \<Rightarrow> try_exit" where
  "tryBody res =
     (case res of
        NetworkFailure \<Rightarrow> Throw FetchRejected
      | Response status href \<Rightarrow>
          if res_ok status then Return href
          else if status = 429 then Continue
          else Throw (HttpFailure status))"

definition MAX_RETRIES :: nat where
  "MAX_RETRIES = 4"

text \<open>The loop of \<^verbatim>\<open>signUrl\<close>. \<open>fetch k\<close> is the outcome of the \<open>k\<close>-th call of \<^verbatim>\<open>fetch\<close>
  (one call per attempt); \<open>slept\<close> collects the arguments of the calls of \<^verbatim>\<open>sleep\<close>, in
  order. The result is what \<^verbatim>\<open>signUrl\<close> returns or throws, the sleeps, and the number of
  calls of \<^verbatim>\<open>fetch\<close>.\<close>

function signUrlLoop ::
  "(nat \<Rightarrow> response) \<Rightarrow> nat \<Rightarrow> nat \<Rightarrow> nat list \<Rightarrow> (sign_error + string) \<times> nat list \<times> nat" where
  "signUrlLoop fetch attempt delay slept =
     (if attempt \<le> MAX_RETRIES then
        (case tryBody (fetch attempt) of
           Return href \<Rightarrow> (Inr href, slept, attempt)
         | Continue \<Rightarrow> signUrlLoop fetch (attempt + 1) (delay * 2) (slept @ [delay])
         | Throw e \<Rightarrow>
             if attempt = MAX_RETRIES then (Inl e, slept, attempt)
             else signUrlLoop fetch (attempt + 1) (delay * 2) (slept @ [delay]))
      else (Inl RateLimited, slept, attempt - 1))"
  by pat_completeness auto
termination
  by (relation "measure (\<lambda>(fetch, attempt, delay, slept). Suc MAX_RETRIES - attempt)") auto

declare signUrlLoop.simps [simp del]

definition signUrl :: "(nat \<Rightarrow> response) \<Rightarrow> (sign_error + string) \<times> nat list \<times> nat" where
  "signUrl fetch = signUrlLoop fetch 1 800 []"

section \<open>Definitions used to state the properties\<close>

text \<open>The calibration and the index in the words of the specification:
  \<open>reflect = clamp(raw*scale+offset, 0, 1)\<close>, \<open>denom = nir_reflect + red_reflect\<close> and
  \<open>value = denom > 0 ? (nir_reflect - red_reflect) / denom : NoData\<close>, to be compared with
  \<^const>\<open>ndviValue\<close>.\<close>

definition spec_clamp :: "real \<Rightarrow> real \<Rightarrow> real \<Rightarrow> real" where
  "spec_clamp x lo hi = (if x < lo then lo else if hi < x then hi else x)"

definition spec_reflect :: "real \<Rightarrow> real" where
  "spec_reflect raw = spec_clamp (raw * 0.0000275 + (- 0.2)) 0 1"

definition spec_index :: "real \<Rightarrow> real \<Rightarrow> real option" where
  "spec_index redRaw nirRaw =
     (let nir_reflect = spec_reflect nirRaw;
          red_reflect = spec_reflect redRaw;
          denom = nir_reflect + red_reflect
      in if denom > 0 then Some ((nir_reflect - red_reflect) / denom) else None)"

text \<open>The loop of \<^verbatim>\<open>computeNDVIArray\<close> after its first \<open>k\<close> iterations.\<close>

definition ndviPrefix :: "real list \<Rightarrow> real list \<Rightarrow> nat \<Rightarrow> nat \<Rightarrow> ndvi_loop" where
  "ndviPrefix red nir n k =
     fold (ndviStep red nir) [0..<k]
       \<lparr>l_ndvi = replicate n (Some 0), l_sum = 0, l_cnt = 0, l_veg = 0,
        l_minV = PosInfinity, l_maxV = NegInfinity\<rparr>"

text \<open>The invariant of the accumulators: nothing counted yet and all of them at their
  initial values, or the sum between \<open>cnt * minV\<close> and \<open>cnt * maxV\<close>.\<close>

definition stats_inv :: "ndvi_loop \<Rightarrow> bool" where
  "stats_inv s =
     (if l_cnt s = 0 then
        l_sum s = 0 \<and> l_veg s = 0 \<and> l_minV s = PosInfinity \<and> l_maxV s = NegInfinity
      else
        (case (l_minV s, l_maxV s) of
           (Finite m, Finite M) \<Rightarrow>
             real (l_cnt s) * m \<le> l_sum s \<and> l_sum s \<le> real (l_cnt s) * M
         | _ \<Rightarrow> False) \<and>
        l_veg s \<le> l_cnt s)"







text \<open>The list of colour stops that \<^verbatim>\<open>applyColormap\<close> hands to \<^verbatim>\<open>interp\<close> for a palette
  name (the \<^verbatim>\<open>switch\<close>, with \<^verbatim>\<open>rdylgn\<close> as the default case).\<close>

definition colormapStops :: "string \<Rightarrow> (int \<times> int \<times> int) list" where
  "colormapStops name =
     (if name = ''greens'' then [(247,252,245),(0,109,44)]
      else if name = ''viridis'' then
        [(68,1,84),(59,82,139),(33,145,140),(94,201,98),(253,231,37)]
      else if name = ''spectral'' then
        [(158,1,66),(213,62,79),(253,174,97),(255,255,191),(171,221,164),(43,131,186),(94,79,162)]
      else if name = ''ylgn'' then [(255,255,229),(120,198,121),(0,104,55)]
      else [(165,0,38),(215,48,39),(244,109,67),(253,174,97),(254,224,139),(255,255,191),
            (217,239,139),(166,217,106),(102,189,99),(26,152,80),(0,104,55)])"

section \<open>Properties of the rounding to the nearest double\<close>























section \<open>Properties of the window reader\<close>













text \<open>\<^verbatim>\<open>readCOGWindow\<close> in terms of its parts: \<^verbatim>\<open>null\<close> exactly when the clamped window is
  empty, and otherwise one windowed read of the clamped window at the output size.\<close>

lemma readCOGWindow_result:
  assumes "reprojectAOI proj4 (getEPSG img) bboxWGS84 = Inr utmCoords"
  shows "readCOGWindow proj4 readRasters img bboxWGS84 =
     (case clampWindow img (rawWindow img utmCoords) of
        None \<Rightarrow> Inr None
      | Some w \<Rightarrow>
          Inr (Some \<lparr>data = readRasters w (fst (outputSize w)) (snd (outputSize w)),
                     width = nat (fst (outputSize w)), height = nat (snd (outputSize w))\<rparr>))"
  using assms by (simp add: readCOGWindow_def split: option.splits prod.splits)




lemma outputScale_pos:
  "1 \<le> winW \<Longrightarrow> 1 \<le> winH \<Longrightarrow> 0 < outputScale winW winH \<and> outputScale winW winH \<le> 1"
  by (simp add: outputScale_def)

lemma scaled_le_1024:
  assumes "1 \<le> winW" "1 \<le> winH" "w \<le> max winW winH" "0 \<le> w"
  shows "real_of_int w * outputScale winW winH \<le> 1024"
proof -
  let ?M = "real_of_int (max winW winH)"
  have M: "0 < ?M" using assms by simp
  have "real_of_int w * outputScale winW winH \<le> real_of_int w * (1024 / ?M)"
    using assms by (intro mult_left_mono) (simp_all add: outputScale_def)
  also have "\<dots> = 1024 * (real_of_int w / ?M)" by simp
  also have "\<dots> \<le> 1024 * 1"
    using assms M by (intro mult_left_mono) (simp_all add: pos_divide_le_eq)
  finally show ?thesis by simp
qed

lemma scaled_le_self:
  assumes "1 \<le> winW" "1 \<le> winH" "0 \<le> w"
  shows "real_of_int w * outputScale winW winH \<le> real_of_int w"
  using assms mult_left_mono [of "outputScale winW winH" 1 "real_of_int w"]
  by (simp add: outputScale_def)

lemma scaled_pos:
  assumes "1 \<le> winW" "1 \<le> winH" "1 \<le> w"
  shows "0 < real_of_int w * outputScale winW winH"
  using assms outputScale_pos [of winW winH] by simp

text \<open>One output dimension, for a window dimension \<open>w\<close> that is \<open>winW\<close> or \<open>winH\<close>.\<close>

lemma output_dimension:
  assumes "1 \<le> winW" "1 \<le> winH" "1 \<le> w" "w \<le> max winW winH"
  defines "x \<equiv> real_of_int w * outputScale winW winH"
  shows "1 \<le> max 1 (round x)" "max 1 (round x) \<le> 1024" "max 1 (round x) \<le> w"
    "\<bar>real_of_int (max 1 (round x)) - x\<bar> < 1"
proof -
  have x0: "0 < x"
    using assms scaled_pos by (simp add: x_def)
  have x1: "x \<le> 1024"
    using assms scaled_le_1024 [of winW winH w] by (simp add: x_def)
  have x2: "x \<le> real_of_int w"
    using assms scaled_le_self [of winW winH w] by (simp add: x_def)
  show "1 \<le> max 1 (round x)" by simp
  have "round x \<le> round (real_of_int 1024)"
    using x1 by (intro round_mono) simp
  then show "max 1 (round x) \<le> 1024" by simp
  have "round x \<le> round (real_of_int w)"
    using x2 by (intro round_mono)
  then show "max 1 (round x) \<le> w" using assms by simp
  have r: "\<bar>real_of_int (round x) - x\<bar> \<le> 1 / 2"
    by (rule of_int_round_abs_le)
  show "\<bar>real_of_int (max 1 (round x)) - x\<bar> < 1"
  proof (cases "1 \<le> round x")
    case True
    then show ?thesis using r by (simp add: max_def)
  next
    case False
    then have "round x \<le> 0" by simp
    then have "x < 1" using r by linarith
    with x0 False show ?thesis by (simp add: max_def)
  qed
qed

text \<open>The larger dimension is scaled to an integer: to itself, or to 1024.\<close>

lemma larger_dimension_scaled:
  assumes "1 \<le> winW" "1 \<le> winH"
  defines "M \<equiv> max winW winH"
  shows "real_of_int M * outputScale winW winH = real_of_int (min M 1024)"
proof (cases "M \<le> 1024")
  case True
  then have "outputScale winW winH = 1"
    using assms by (simp add: outputScale_def)
  then show ?thesis using True by simp
next
  case False
  then have M: "1024 < real_of_int M" by simp
  then have "1024 / real_of_int M \<le> 1"
    by (simp add: divide_le_eq)
  then have "outputScale winW winH = 1024 / real_of_int M"
    unfolding outputScale_def M_def by (rule min_absorb2)
  then show ?thesis using M False by simp
qed

lemma larger_dimension_exact:
  assumes "1 \<le> winW" "1 \<le> winH"
  shows "max 1 (round (real_of_int (max winW winH) * outputScale winW winH)) =
           min (max winW winH) 1024"
proof -
  have "round (real_of_int (max winW winH) * outputScale winW winH) = min (max winW winH) 1024"
    by (simp only: larger_dimension_scaled [OF assms] round_of_int)
  then show ?thesis using assms by simp
qed

lemma outputSize_eq:
  "outputSize (col0, row0, col0 + winW, row0 + winH) =
     (max 1 (round (real_of_int winW * outputScale winW winH)),
      max 1 (round (real_of_int winH * outputScale winW winH)))"
  by (simp add: outputSize_def Let_def)

text \<open>
  Claim C4. For a clamped, non-empty window of \<open>winW\<close> by \<open>winH\<close> pixels (at any position
  \<open>col0\<close>, \<open>row0\<close>), the scale is \<open>min(1, 1024 / max(winW, winH))\<close> and the output size is
  \<open>round(winW * scale)\<close> by \<open>round(winH * scale)\<close>, each floored at 1. The output size is
  at most 1024 and at most the size of the window in each dimension. The aspect ratio is
  kept to within one pixel: each output dimension is less than one pixel away from the
  exactly scaled window dimension, and, the larger window dimension being scaled without
  rounding error, the smaller output dimension is less than one pixel away from the
  larger output dimension times the ratio of the window.
\<close>

theorem outputSize_capped:
  assumes "1 \<le> winW" and "1 \<le> winH"
    and "scale = min 1 (1024 / real_of_int (max winW winH))"
    and "outputSize (col0, row0, col0 + winW, row0 + winH) = (outW, outH)"
  shows
    "outW = max 1 (round (real_of_int winW * scale)) \<and>
     outH = max 1 (round (real_of_int winH * scale)) \<and>
     1 \<le> outW \<and> outW \<le> 1024 \<and> outW \<le> winW \<and>
     1 \<le> outH \<and> outH \<le> 1024 \<and> outH \<le> winH \<and>
     \<bar>real_of_int outW - real_of_int winW * scale\<bar> < 1 \<and>
     \<bar>real_of_int outH - real_of_int winH * scale\<bar> < 1 \<and>
     (winH \<le> winW \<longrightarrow> outW = min winW 1024 \<and>
        \<bar>real_of_int outH - real_of_int outW * (real_of_int winH / real_of_int winW)\<bar> < 1) \<and>
     (winW \<le> winH \<longrightarrow> outH = min winH 1024 \<and>
        \<bar>real_of_int outW - real_of_int outH * (real_of_int winW / real_of_int winH)\<bar> < 1)"
proof -
  have s: "scale = outputScale winW winH"
    using assms(3) by (simp add: outputScale_def)
  have W: "outW = max 1 (round (real_of_int winW * scale))"
    and H: "outH = max 1 (round (real_of_int winH * scale))"
    using assms(4) by (simp_all add: outputSize_eq s)
  have w: "1 \<le> outW" "outW \<le> 1024" "outW \<le> winW"
      "\<bar>real_of_int outW - real_of_int winW * scale\<bar> < 1"
    unfolding W s using assms(1,2) by (intro output_dimension; simp)+
  have h: "1 \<le> outH" "outH \<le> 1024" "outH \<le> winH"
      "\<bar>real_of_int outH - real_of_int winH * scale\<bar> < 1"
    unfolding H s using assms(1,2) by (intro output_dimension; simp)+
  have wide: "outW = min winW 1024 \<and>
      \<bar>real_of_int outH - real_of_int outW * (real_of_int winH / real_of_int winW)\<bar> < 1"
    if le: "winH \<le> winW"
  proof -
    from le have m: "max winW winH = winW" by simp
    have e: "outW = min winW 1024"
      using larger_dimension_exact [OF assms(1,2)] by (simp add: W s m)
    have "real_of_int outW = real_of_int winW * scale"
      using larger_dimension_scaled [OF assms(1,2)] by (simp add: e s m)
    then have "real_of_int outW * (real_of_int winH / real_of_int winW) = real_of_int winH * scale"
      using assms(1) by simp
    with e h(4) show ?thesis by simp
  qed
  have tall: "outH = min winH 1024 \<and>
      \<bar>real_of_int outW - real_of_int outH * (real_of_int winW / real_of_int winH)\<bar> < 1"
    if le: "winW \<le> winH"
  proof -
    from le have m: "max winW winH = winH" by simp
    have e: "outH = min winH 1024"
      using larger_dimension_exact [OF assms(1,2)] by (simp add: H s m)
    have "real_of_int outH = real_of_int winH * scale"
      using larger_dimension_scaled [OF assms(1,2)] by (simp add: e s m)
    then have "real_of_int outH * (real_of_int winW / real_of_int winH) = real_of_int winW * scale"
      using assms(2) by simp
    with e w(4) show ?thesis by simp
  qed
  from W H w h wide tall show ?thesis by blast
qed

theorem outputSize_capped_witness:
  "outputSize (100, 50, 100 + 3000, 50 + 2000) = (1024, 683) \<and>
   (1024 :: int) \<le> 3000 \<and> (683 :: int) \<le> 2000 \<and>
   \<bar>real_of_int 683 - real_of_int 2000 * min 1 (1024 / real_of_int (max 3000 2000))\<bar> < 1 \<and>
   \<bar>real_of_int 683 - real_of_int 1024 * (real_of_int 2000 / real_of_int 3000)\<bar> < 1"
proof -
  have w: "(1 :: int) \<le> 3000" and h: "(1 :: int) \<le> 2000"
    by simp_all
  have o: "outputSize (100, 50, 100 + 3000, 50 + 2000) = (1024, 683)"
    by (simp add: outputSize_def outputScale_def Let_def round_def)
  from outputSize_capped [OF w h refl o] o show ?thesis
    by simp
qed

lemma reprojectAOI_identity:
  "reprojectAOI proj4 4326 (west, south, east, north) =
     Inr \<lparr>xmin = west, ymin = south, xmax = east, ymax = north\<rparr>"
  by (simp add: reprojectAOI_def)

lemma reprojectAOI_projected:
  assumes "epsg \<noteq> 4326"
    and "proj4 epsg (west, south) = Some p1" and "proj4 epsg (east, south) = Some p2"
    and "proj4 epsg (east, north) = Some p3" and "proj4 epsg (west, north) = Some p4"
  shows "reprojectAOI proj4 epsg (west, south, east, north) =
           Inr \<lparr>xmin = Min (fst ` {p1, p2, p3, p4}), ymin = Min (snd ` {p1, p2, p3, p4}),
                xmax = Max (fst ` {p1, p2, p3, p4}), ymax = Max (snd ` {p1, p2, p3, p4})\<rparr>"
  using assms by (simp add: reprojectAOI_def Let_def)

lemma reprojectAOI_throws:
  assumes "epsg \<noteq> 4326"
    and "proj4 epsg (west, south) = None \<or> proj4 epsg (east, south) = None \<or>
         proj4 epsg (east, north) = None \<or> proj4 epsg (west, north) = None"
  shows "reprojectAOI proj4 epsg (west, south, east, north) = Inl ProjectionError"
  using assms by (auto simp add: reprojectAOI_def Let_def split: option.splits)

text \<open>
  Claim C6. For every bounding box in geographic coordinates: when the CRS of the raster
  is the geographic one of the box (EPSG 4326, the test of the source), the box is
  returned unchanged; otherwise each of the four corners is projected, and the result is
  the axis-aligned bounding box of the four projected points (the minimum and the
  maximum of their coordinates), which contains each of the four projected corners.
\<close>

theorem reprojectAOI_bounding_box:
  "reprojectAOI proj4 4326 (west, south, east, north) =
     Inr \<lparr>xmin = west, ymin = south, xmax = east, ymax = north\<rparr> \<and>
   (epsg \<noteq> 4326 \<and>
    proj4 epsg (west, south) = Some p1 \<and> proj4 epsg (east, south) = Some p2 \<and>
    proj4 epsg (east, north) = Some p3 \<and> proj4 epsg (west, north) = Some p4 \<longrightarrow>
    (\<exists>u. reprojectAOI proj4 epsg (west, south, east, north) = Inr u \<and>
         xmin u = Min (fst ` {p1, p2, p3, p4}) \<and> ymin u = Min (snd ` {p1, p2, p3, p4}) \<and>
         xmax u = Max (fst ` {p1, p2, p3, p4}) \<and> ymax u = Max (snd ` {p1, p2, p3, p4}) \<and>
         (\<forall>p \<in> {p1, p2, p3, p4}.
            xmin u \<le> fst p \<and> fst p \<le> xmax u \<and> ymin u \<le> snd p \<and> snd p \<le> ymax u)))"
proof (intro conjI impI)
  show "reprojectAOI proj4 4326 (west, south, east, north) =
     Inr \<lparr>xmin = west, ymin = south, xmax = east, ymax = north\<rparr>"
    by (rule reprojectAOI_identity)
next
  assume a: "epsg \<noteq> 4326 \<and>
    proj4 epsg (west, south) = Some p1 \<and> proj4 epsg (east, south) = Some p2 \<and>
    proj4 epsg (east, north) = Some p3 \<and> proj4 epsg (west, north) = Some p4"
  let ?P = "{p1, p2, p3, p4}"
  let ?u = "\<lparr>xmin = Min (fst ` ?P), ymin = Min (snd ` ?P),
             xmax = Max (fst ` ?P), ymax = Max (snd ` ?P)\<rparr>"
  from a have r: "reprojectAOI proj4 epsg (west, south, east, north) = Inr ?u"
    by (intro reprojectAOI_projected) simp_all
  have b: "\<forall>p \<in> ?P.
      xmin ?u \<le> fst p \<and> fst p \<le> xmax ?u \<and> ymin ?u \<le> snd p \<and> snd p \<le> ymax ?u"
  proof
    fix p
    assume "p \<in> ?P"
    then have "fst p \<in> fst ` ?P" "snd p \<in> snd ` ?P" by blast+
    moreover have "finite (fst ` ?P)" "finite (snd ` ?P)" by simp_all
    ultimately show
      "xmin ?u \<le> fst p \<and> fst p \<le> xmax ?u \<and> ymin ?u \<le> snd p \<and> snd p \<le> ymax ?u"
      by (simp only: utm_coords.simps Min_le Max_ge)
  qed
  from r b show "\<exists>u. reprojectAOI proj4 epsg (west, south, east, north) = Inr u \<and>
         xmin u = Min (fst ` ?P) \<and> ymin u = Min (snd ` ?P) \<and>
         xmax u = Max (fst ` ?P) \<and> ymax u = Max (snd ` ?P) \<and>
         (\<forall>p \<in> ?P. xmin u \<le> fst p \<and> fst p \<le> xmax u \<and> ymin u \<le> snd p \<and> snd p \<le> ymax u)"
    by (intro exI [of _ ?u] conjI) (simp_all only: utm_coords.simps)
qed

theorem reprojectAOI_bounding_box_witness:
  "reprojectAOI (\<lambda>e p. Some (500000 + 100000 * fst p + 10 * snd p, 110000 * snd p - 1000 * fst p))
     32630 (1, 40, 2, 41) =
     Inr \<lparr>xmin = 600400, ymin = 4398000, xmax = 700410, ymax = 4509000\<rparr> \<and>
   reprojectAOI (\<lambda>e p. Some (500000 + 100000 * fst p + 10 * snd p, 110000 * snd p - 1000 * fst p))
     4326 (1, 40, 2, 41) =
     Inr \<lparr>xmin = 1, ymin = 40, xmax = 2, ymax = 41\<rparr>"
proof -
  let ?proj = "\<lambda>(e :: nat) (p :: real \<times> real).
                 Some (500000 + 100000 * fst p + 10 * snd p, 110000 * snd p - 1000 * fst p)"
  let ?P = "{(600400, 4399000), (700400, 4398000), (700410, 4508000), (600410 :: real, 4509000 :: real)}"
  note t = reprojectAOI_bounding_box [of ?proj 1 40 2 41 32630
      "(600400, 4399000)" "(700400, 4398000)" "(700410, 4508000)" "(600410, 4509000)"]
  have h: "(32630 :: nat) \<noteq> 4326 \<and>
      ?proj 32630 (1, 40) = Some (600400, 4399000) \<and>
      ?proj 32630 (2, 40) = Some (700400, 4398000) \<and>
      ?proj 32630 (2, 41) = Some (700410, 4508000) \<and>
      ?proj 32630 (1, 41) = Some (600410, 4509000)"
    by simp
  from t have id: "reprojectAOI ?proj 4326 (1, 40, 2, 41) =
      Inr \<lparr>xmin = 1, ymin = 40, xmax = 2, ymax = 41\<rparr>"
    by (rule conjunct1)
  from t have "\<exists>u. reprojectAOI ?proj 32630 (1, 40, 2, 41) = Inr u \<and>
         xmin u = Min (fst ` ?P) \<and> ymin u = Min (snd ` ?P) \<and>
         xmax u = Max (fst ` ?P) \<and> ymax u = Max (snd ` ?P) \<and>
         (\<forall>p \<in> ?P. xmin u \<le> fst p \<and> fst p \<le> xmax u \<and> ymin u \<le> snd p \<and> snd p \<le> ymax u)"
    using h by (rule conjunct2 [THEN mp])
  then obtain u where u: "reprojectAOI ?proj 32630 (1, 40, 2, 41) = Inr u"
    and c: "xmin u = Min (fst ` ?P)" "ymin u = Min (snd ` ?P)"
      "xmax u = Max (fst ` ?P)" "ymax u = Max (snd ` ?P)"
    by blast
  from c have "u = \<lparr>xmin = 600400, ymin = 4398000, xmax = 700410, ymax = 4509000\<rparr>"
    by simp
  with u id show ?thesis
    by (simp only: simp_thms)
qed

section \<open>Properties of the NDVI computation\<close>

lemma reflectance_range: "0 \<le> reflectance raw \<and> reflectance raw \<le> 1"
  by (simp add: reflectance_def)

lemma reflectance_spec: "reflectance raw = spec_reflect raw"
  by (simp add: reflectance_def spec_reflect_def spec_clamp_def SCALE_def OFFSET_def
      max_def min_def)

lemma ndviValue_range:
  assumes h: "ndviValue a b = Some v"
  shows "- 1 \<le> v \<and> v \<le> 1"
proof -
  from h obtain x y where ab: "a = Some x" "b = Some y"
    by (cases a; cases b) (simp_all add: ndviValue_def)
  define r where "r = reflectance x"
  define n where "n = reflectance y"
  have rn: "0 \<le> r" "0 \<le> n"
    using reflectance_range by (simp_all add: r_def n_def)
  from h ab have d: "n + r > 0" and v: "v = (n - r) / (n + r)"
    by (auto simp: ndviValue_def Let_def r_def n_def split: if_splits)
  from d rn have "- 1 \<le> (n - r) / (n + r)"
    by (simp add: pos_le_divide_eq)
  moreover from d rn have "(n - r) / (n + r) \<le> 1"
    by (simp add: pos_divide_le_eq)
  ultimately show ?thesis using v by simp
qed

lemma ndviPrefix_0:
  "ndviPrefix red nir n 0 =
     \<lparr>l_ndvi = replicate n (Some 0), l_sum = 0, l_cnt = 0, l_veg = 0,
      l_minV = PosInfinity, l_maxV = NegInfinity\<rparr>"
  by (simp add: ndviPrefix_def)

lemma ndviPrefix_Suc:
  "ndviPrefix red nir n (Suc k) = ndviStep red nir k (ndviPrefix red nir n k)"
  by (simp add: ndviPrefix_def)

lemma ndviLoop_prefix: "ndviLoop red nir n = ndviPrefix red nir n n"
  by (simp add: ndviLoop_def ndviPrefix_def)

lemma ndviStep_ndvi:
  "l_ndvi (ndviStep red nir i s) = (l_ndvi s)[i := ndviValue (sample red i) (sample nir i)]"
  by (simp add: ndviStep_def Let_def split: option.splits)

lemma ndviPrefix_length: "length (l_ndvi (ndviPrefix red nir n k)) = n"
  by (induction k) (simp_all add: ndviPrefix_0 ndviPrefix_Suc ndviStep_ndvi)

lemma ndviPrefix_nth:
  "k \<le> n \<Longrightarrow> i < n \<Longrightarrow>
   l_ndvi (ndviPrefix red nir n k) ! i =
     (if i < k then ndviValue (sample red i) (sample nir i) else Some 0)"
proof (induction k)
  case 0
  then show ?case by (simp add: ndviPrefix_0)
next
  case (Suc k)
  then show ?case
    by (simp add: ndviPrefix_Suc ndviStep_ndvi ndviPrefix_length nth_list_update less_Suc_eq)
qed

lemma ndviLoop_length: "length (l_ndvi (ndviLoop red nir n)) = n"
  by (simp add: ndviLoop_prefix ndviPrefix_length)

lemma ndviLoop_nth:
  "i < n \<Longrightarrow> l_ndvi (ndviLoop red nir n) ! i = ndviValue (sample red i) (sample nir i)"
  by (simp add: ndviLoop_prefix ndviPrefix_nth)

lemma computeNDVIArray_length:
  "length (ndvi (computeNDVIArray redData nirData)) =
     min (width redData) (width nirData) * min (height redData) (height nirData)"
  by (simp add: computeNDVIArray_def Let_def ndviLoop_length)

lemma computeNDVIArray_nth:
  "i < min (width redData) (width nirData) * min (height redData) (height nirData) \<Longrightarrow>
   ndvi (computeNDVIArray redData nirData) ! i =
     ndviValue (sample (data redData) i) (sample (data nirData) i)"
  by (simp add: computeNDVIArray_def Let_def ndviLoop_nth)

lemma ndviStep_cnt:
  "l_cnt (ndviStep red nir i s) =
     (if ndviValue (sample red i) (sample nir i) = None then l_cnt s else l_cnt s + 1)"
  by (simp add: ndviStep_def Let_def split: option.splits)

lemma ndviPrefix_cnt:
  "l_cnt (ndviPrefix red nir n k) =
     length (filter (\<lambda>i. ndviValue (sample red i) (sample nir i) \<noteq> None) [0..<k])"
  by (induction k) (simp_all add: ndviPrefix_0 ndviPrefix_Suc ndviStep_cnt)

lemma ndviLoop_cnt_pos:
  "(0 < l_cnt (ndviLoop red nir n)) = (\<exists>i<n. ndviValue (sample red i) (sample nir i) \<noteq> None)"
proof -
  have "(0 < l_cnt (ndviLoop red nir n)) =
      (filter (\<lambda>i. ndviValue (sample red i) (sample nir i) \<noteq> None) [0..<n] \<noteq> [])"
    by (simp add: ndviLoop_prefix ndviPrefix_cnt)
  also have "\<dots> = (\<exists>i<n. ndviValue (sample red i) (sample nir i) \<noteq> None)"
    by (auto simp: filter_empty_conv)
  finally show ?thesis .
qed

lemma stats_inv_step:
  assumes "stats_inv s"
  shows "stats_inv (ndviStep red nir i s)"
proof (cases "ndviValue (sample red i) (sample nir i)")
  case None
  with assms show ?thesis
    by (auto simp: ndviStep_def stats_inv_def split: if_splits number.splits)
next
  case (Some x)
  show ?thesis
  proof (cases "l_cnt s = 0")
    case True
    with assms Some show ?thesis
      by (simp add: ndviStep_def stats_inv_def)
  next
    case False
    with assms obtain m M where mM: "l_minV s = Finite m" "l_maxV s = Finite M"
      "real (l_cnt s) * m \<le> l_sum s" "l_sum s \<le> real (l_cnt s) * M" "l_veg s \<le> l_cnt s"
      by (auto simp: stats_inv_def split: number.splits)
    have lo: "x < m \<Longrightarrow> real (l_cnt s) * x \<le> l_sum s"
      using mM(3) mult_left_mono [of x m "real (l_cnt s)"] by simp
    have hi: "M < x \<Longrightarrow> l_sum s \<le> real (l_cnt s) * x"
      using mM(4) mult_left_mono [of M x "real (l_cnt s)"] by simp
    from Some mM lo hi show ?thesis
      by (simp add: ndviStep_def stats_inv_def Let_def algebra_simps)
  qed
qed

lemma stats_inv_prefix: "stats_inv (ndviPrefix red nir n k)"
proof (induction k)
  case 0
  show ?case by (simp add: ndviPrefix_0 stats_inv_def)
next
  case (Suc k)
  then show ?case by (simp add: ndviPrefix_Suc stats_inv_step)
qed

lemma stats_inv_loop: "stats_inv (ndviLoop red nir n)"
  by (simp add: ndviLoop_prefix stats_inv_prefix)

text \<open>The count \<^verbatim>\<open>cnt\<close> is positive exactly when the returned array has a value that is
  not NoData.\<close>

lemma computeNDVIArray_valid_iff:
  "(0 < l_cnt (ndviLoop (data redData) (data nirData)
      (min (width redData) (width nirData) * min (height redData) (height nirData)))) =
   (\<exists>v. Some v \<in> set (ndvi (computeNDVIArray redData nirData)))"
proof -
  let ?n = "min (width redData) (width nirData) * min (height redData) (height nirData)"
  have "(\<exists>v. Some v \<in> set (ndvi (computeNDVIArray redData nirData))) =
        (\<exists>i<?n. ndvi (computeNDVIArray redData nirData) ! i \<noteq> None)"
    by (auto simp: in_set_conv_nth computeNDVIArray_length)
  also have "\<dots> =
      (\<exists>i<?n. ndviValue (sample (data redData) i) (sample (data nirData) i) \<noteq> None)"
    by (auto simp: computeNDVIArray_nth)
  finally show ?thesis by (simp add: ndviLoop_cnt_pos)
qed

text \<open>With a valid sample, \<open>min \<le> mean \<le> max\<close>.\<close>

lemma computeNDVIArray_stats_ordered:
  assumes "Some v \<in> set (ndvi (computeNDVIArray redData nirData))"
  shows "\<exists>m M. stats_min (stats (computeNDVIArray redData nirData)) = Finite m \<and>
               stats_max (stats (computeNDVIArray redData nirData)) = Finite M \<and>
               m \<le> stats_mean (stats (computeNDVIArray redData nirData)) \<and>
               stats_mean (stats (computeNDVIArray redData nirData)) \<le> M"
proof -
  let ?n = "min (width redData) (width nirData) * min (height redData) (height nirData)"
  let ?s = "ndviLoop (data redData) (data nirData) ?n"
  from assms have c: "0 < l_cnt ?s"
    using computeNDVIArray_valid_iff by blast
  with stats_inv_loop [of "data redData" "data nirData" ?n]
  obtain m M where mM: "l_minV ?s = Finite m" "l_maxV ?s = Finite M"
      "real (l_cnt ?s) * m \<le> l_sum ?s" "l_sum ?s \<le> real (l_cnt ?s) * M"
    by (auto simp: stats_inv_def split: number.splits)
  from c mM(3) have "m \<le> l_sum ?s / real (l_cnt ?s)"
    by (simp add: pos_le_divide_eq mult.commute)
  moreover from c mM(4) have "l_sum ?s / real (l_cnt ?s) \<le> M"
    by (simp add: pos_divide_le_eq mult.commute)
  ultimately show ?thesis using c mM(1,2)
    by (simp add: computeNDVIArray_def Let_def)
qed

text \<open>Without a valid sample, the mean and the coverage are 0, and the minimum and the
  maximum are still the infinities they started from.\<close>

lemma computeNDVIArray_stats_no_valid:
  assumes "\<not> (\<exists>v. Some v \<in> set (ndvi (computeNDVIArray redData nirData)))"
  shows "stats (computeNDVIArray redData nirData) =
           \<lparr>stats_min = PosInfinity, stats_mean = 0, stats_max = NegInfinity, stats_vegPct = 0\<rparr>"
proof -
  let ?n = "min (width redData) (width nirData) * min (height redData) (height nirData)"
  let ?s = "ndviLoop (data redData) (data nirData) ?n"
  from assms have c: "l_cnt ?s = 0"
    using computeNDVIArray_valid_iff [of redData nirData] by simp
  with stats_inv_loop [of "data redData" "data nirData" ?n]
  have "l_minV ?s = PosInfinity" "l_maxV ?s = NegInfinity"
    by (simp_all add: stats_inv_def)
  with c show ?thesis by (simp add: computeNDVIArray_def Let_def)
qed

lemma grid_index:
  fixes w h :: nat
  assumes "col < w" "row < h"
  shows "row * w + col < w * h"
proof -
  from assms have "row * w + col < row * w + w" by simp
  also have "\<dots> = Suc row * w" by simp
  also have "\<dots> \<le> h * w" using assms by (intro mult_le_mono1) simp
  finally show ?thesis by (simp add: mult.commute)
qed

text \<open>
  Claim C2. For every pair of raw samples the value of the index is the one the
  specification gives: each band is calibrated by \<open>clamp(raw * 0.0000275 - 0.2, 0, 1)\<close>,
  and with \<open>denom\<close> the sum of the two reflectances the value is
  \<open>(nir_reflect - red_reflect) / denom\<close> when \<open>denom > 0\<close> and NoData (\<open>None\<close>) otherwise.
  When the two reflectances are equal and \<open>denom > 0\<close> the value is exactly 0, and when
  both reflectances are 0 it is NoData.
\<close>

theorem ndviValue_calibrated_index:
  "reflectance redRaw = spec_reflect redRaw \<and>
   reflectance nirRaw = spec_reflect nirRaw \<and>
   ndviValue (Some redRaw) (Some nirRaw) = spec_index redRaw nirRaw \<and>
   (spec_reflect nirRaw = spec_reflect redRaw \<and> spec_reflect nirRaw + spec_reflect redRaw > 0
      \<longrightarrow> ndviValue (Some redRaw) (Some nirRaw) = Some 0) \<and>
   (spec_reflect nirRaw = 0 \<and> spec_reflect redRaw = 0
      \<longrightarrow> ndviValue (Some redRaw) (Some nirRaw) = None)"
  by (simp add: ndviValue_def spec_index_def reflectance_spec Let_def)

theorem ndviValue_calibrated_index_witness:
  "ndviValue (Some 20000) (Some 20000) = Some 0 \<and>
   ndviValue (Some 0) (Some 0) = None \<and>
   ndviValue (Some 20000) (Some 30000) = Some (11 / 39)"
  using ndviValue_calibrated_index [of 20000 20000] ndviValue_calibrated_index [of 0 0]
    ndviValue_calibrated_index [of 20000 30000]
  by (simp add: spec_index_def spec_reflect_def spec_clamp_def)

text \<open>
  Claim C5. Every value of the array returned by \<^verbatim>\<open>computeNDVIArray\<close> that is not NoData
  lies in the closed interval from -1 to 1.
\<close>

theorem computeNDVIArray_values_in_range:
  assumes "Some v \<in> set (ndvi (computeNDVIArray redData nirData))"
  shows "- 1 \<le> v \<and> v \<le> 1"
proof -
  from assms obtain i where i: "i < length (ndvi (computeNDVIArray redData nirData))"
    and v: "ndvi (computeNDVIArray redData nirData) ! i = Some v"
    by (auto simp: in_set_conv_nth)
  from i have "i < min (width redData) (width nirData) * min (height redData) (height nirData)"
    by (simp add: computeNDVIArray_length)
  with v have "ndviValue (sample (data redData) i) (sample (data nirData) i) = Some v"
    by (simp add: computeNDVIArray_nth)
  then show ?thesis by (rule ndviValue_range)
qed

theorem computeNDVIArray_values_in_range_witness:
  "Some (11 / 39) \<in> set (ndvi (computeNDVIArray
       \<lparr>data = [20000, 0], width = 2, height = 1\<rparr>
       \<lparr>data = [30000, 0], width = 2, height = 1\<rparr>)) \<and>
   - 1 \<le> (11 / 39 :: real) \<and> (11 / 39 :: real) \<le> 1"
proof -
  have m: "Some (11 / 39) \<in> set (ndvi (computeNDVIArray
       \<lparr>data = [20000, 0], width = 2, height = 1\<rparr>
       \<lparr>data = [30000, 0], width = 2, height = 1\<rparr>))"
    by (simp add: computeNDVIArray_def ndviLoop_def ndviStep_def ndviValue_def sample_def
        reflectance_def SCALE_def OFFSET_def Let_def upt_rec numeral_2_eq_2)
  from computeNDVIArray_values_in_range [OF m] m show ?thesis
    by (intro conjI) simp_all
qed

text \<open>
  Claim C3. The statistics returned by \<^verbatim>\<open>computeNDVIArray\<close>: with no valid sample, all of
  min, mean, max and the coverage percentage are claimed to be zero. On a window of four
  pixels whose raw samples are all 0 in both bands (both reflectances clamp to 0, so
  every sample is NoData and the count is zero), the mean and the coverage are 0, but
  the minimum is \<^verbatim>\<open>Infinity\<close> and the maximum is \<^verbatim>\<open>-Infinity\<close>: the guard \<^verbatim>\<open>cnt > 0 ? ... : 0\<close>
  that the source has for the mean and for the coverage is missing for \<^verbatim>\<open>minV\<close> and
  \<^verbatim>\<open>maxV\<close>. (With a valid sample, \<open>min \<le> mean \<le> max\<close> holds: lemma
  \<open>computeNDVIArray_stats_ordered\<close>.)
\<close>

theorem computeNDVIArray_no_valid_sample:
  "computeNDVIArray \<lparr>data = [0, 0, 0, 0], width = 2, height = 2\<rparr>
                    \<lparr>data = [0, 0, 0, 0], width = 2, height = 2\<rparr> =
     \<lparr>ndvi = [None, None, None, None], ndviWidth = 2, ndviHeight = 2,
      stats = \<lparr>stats_min = PosInfinity, stats_mean = 0,
                stats_max = NegInfinity, stats_vegPct = 0\<rparr>\<rparr>"
  by (simp add: computeNDVIArray_def ndviLoop_def ndviStep_def ndviValue_def sample_def
      reflectance_def SCALE_def OFFSET_def Let_def upt_rec numeral_2_eq_2 numeral_3_eq_3)

text \<open>What the trimming does: the result is a grid of \<open>min(widthA, widthB)\<close> by
  \<open>min(heightA, heightB)\<close> samples, empty for a window of size zero (the function has no
  error path); when the two windows have the same width (their heights may differ), the
  output sample at \<open>(col, row)\<close> is computed from the sample at \<open>(col, row)\<close> of the red
  window and the sample at \<open>(col, row)\<close> of the NIR window.\<close>

lemma computeNDVIArray_equal_width:
  "ndviWidth (computeNDVIArray redData nirData) = min (width redData) (width nirData) \<and>
   ndviHeight (computeNDVIArray redData nirData) = min (height redData) (height nirData) \<and>
   length (ndvi (computeNDVIArray redData nirData)) =
     min (width redData) (width nirData) * min (height redData) (height nirData) \<and>
   (min (width redData) (width nirData) = 0 \<or> min (height redData) (height nirData) = 0
      \<longrightarrow> ndvi (computeNDVIArray redData nirData) = []) \<and>
   (width redData = width nirData \<longrightarrow>
      (\<forall>col row. col < min (width redData) (width nirData) \<and>
                 row < min (height redData) (height nirData) \<longrightarrow>
         ndvi (computeNDVIArray redData nirData) ! (row * min (width redData) (width nirData) + col) =
           ndviValue (sample (data redData) (row * width redData + col))
                     (sample (data nirData) (row * width nirData + col))))"
proof (intro conjI impI allI)
  show "ndviWidth (computeNDVIArray redData nirData) = min (width redData) (width nirData)"
    by (simp add: computeNDVIArray_def Let_def)
  show "ndviHeight (computeNDVIArray redData nirData) = min (height redData) (height nirData)"
    by (simp add: computeNDVIArray_def Let_def)
  show len: "length (ndvi (computeNDVIArray redData nirData)) =
     min (width redData) (width nirData) * min (height redData) (height nirData)"
    by (rule computeNDVIArray_length)
  show "ndvi (computeNDVIArray redData nirData) = []"
    if "min (width redData) (width nirData) = 0 \<or> min (height redData) (height nirData) = 0"
  proof -
    from that have "length (ndvi (computeNDVIArray redData nirData)) = 0"
      unfolding len by auto
    then show ?thesis by simp
  qed
  show "ndvi (computeNDVIArray redData nirData) ! (row * min (width redData) (width nirData) + col) =
           ndviValue (sample (data redData) (row * width redData + col))
                     (sample (data nirData) (row * width nirData + col))"
    if "width redData = width nirData"
      and "col < min (width redData) (width nirData) \<and> row < min (height redData) (height nirData)"
    for col row
    using that
      grid_index [of col "min (width redData) (width nirData)" row
        "min (height redData) (height nirData)"]
    by (simp add: computeNDVIArray_nth)
qed

lemma computeNDVIArray_zero_size:
  "computeNDVIArray \<lparr>data = [], width = 0, height = 0\<rparr> \<lparr>data = [], width = 0, height = 0\<rparr> =
     \<lparr>ndvi = [], ndviWidth = 0, ndviHeight = 0,
      stats = \<lparr>stats_min = PosInfinity, stats_mean = 0,
                stats_max = NegInfinity, stats_vegPct = 0\<rparr>\<rparr>"
  by (simp add: computeNDVIArray_def ndviLoop_def Let_def)

text \<open>
  Claim C8. Two band windows whose widths or heights differ are claimed to be trimmed to
  \<open>min(widthA, widthB)\<close> by \<open>min(heightA, heightB)\<close>, anchored at \<open>(0, 0)\<close>: the output sample
  at \<open>(col, row)\<close> computed from the sample at \<open>(col, row)\<close> of the red window and the
  sample at \<open>(col, row)\<close> of the NIR window, each in its own row-major grid. The source
  takes the minimum of the two widths and of the two heights, but then reads both arrays
  at the one index \<open>i = row * min(widthA, widthB) + col\<close>, so the wider window is read
  with the stride of the narrower one. With a red window of 3 by 2 and a NIR window of
  2 by 2, the output sample at \<open>(0, 1)\<close>, index 2, is computed from \<^verbatim>\<open>red[2]\<close>, the sample
  at \<open>(2, 0)\<close> of the red window, and is \<open>-11/39\<close>; from the red sample at \<open>(0, 1)\<close>,
  \<^verbatim>\<open>red[3]\<close>, it would be \<open>11/17\<close>.
\<close>

theorem computeNDVIArray_width_mismatch:
  "ndvi (computeNDVIArray
       \<lparr>data = [10000, 10000, 30000, 10000, 10000, 10000], width = 3, height = 2\<rparr>
       \<lparr>data = [20000, 20000, 20000, 20000], width = 2, height = 2\<rparr>) ! (1 * min 3 2 + 0) =
     Some (- (11 / 39)) \<and>
   ndviValue
       (sample (data \<lparr>data = [10000, 10000, 30000, 10000, 10000, 10000],
                      width = 3, height = 2\<rparr>) (0 * 3 + 2))
       (sample (data \<lparr>data = [20000, 20000, 20000, 20000], width = 2, height = 2\<rparr>) (1 * 2 + 0)) =
     Some (- (11 / 39)) \<and>
   ndviValue
       (sample (data \<lparr>data = [10000, 10000, 30000, 10000, 10000, 10000],
                      width = 3, height = 2\<rparr>) (1 * 3 + 0))
       (sample (data \<lparr>data = [20000, 20000, 20000, 20000], width = 2, height = 2\<rparr>) (1 * 2 + 0)) =
     Some (11 / 17)"
  by (simp add: computeNDVIArray_nth ndviValue_def sample_def reflectance_def
      SCALE_def OFFSET_def Let_def)

section \<open>Properties of the colormaps\<close>

lemma applyColormap_stops: "applyColormap t name = interp t (colormapStops name)"
  by (simp add: applyColormap_def colormapStops_def)

lemma colormapStops_length: "2 \<le> length (colormapStops name)"
  by (simp add: colormapStops_def)

text \<open>\<^verbatim>\<open>interp\<close> when both stops it reads are inside the array.\<close>

lemma interp_unfold:
  assumes "n = int (length stops) - 1" "i = min \<lfloor>t * real_of_int n\<rfloor> (n - 1)"
    "stopAt stops i = Some (a0, a1, a2)" "stopAt stops (i + 1) = Some (b0, b1, b2)"
  shows "interp t stops =
     Inr (round (real_of_int a0 + real_of_int (b0 - a0) * (t * real_of_int n - real_of_int i)),
          round (real_of_int a1 + real_of_int (b1 - a1) * (t * real_of_int n - real_of_int i)),
          round (real_of_int a2 + real_of_int (b2 - a2) * (t * real_of_int n - real_of_int i)))"
  unfolding interp_def Let_def assms(1) [symmetric] assms(2) [symmetric]
  by (simp add: assms(3,4))

lemma interp_index:
  assumes "2 \<le> length stops" "0 \<le> t"
    "n = int (length stops) - 1" "i = min \<lfloor>t * real_of_int n\<rfloor> (n - 1)"
  shows "0 \<le> i \<and> i + 1 < int (length stops)"
proof -
  have "0 \<le> t * real_of_int n" using assms by simp
  then have "0 \<le> \<lfloor>t * real_of_int n\<rfloor>" by simp
  then show ?thesis using assms by simp
qed

lemma interp_defined:
  assumes "2 \<le> length stops" "0 \<le> t"
  shows "\<exists>c. interp t stops = Inr c"
proof -
  define n where "n = int (length stops) - 1"
  define i where "i = min \<lfloor>t * real_of_int n\<rfloor> (n - 1)"
  have i: "0 \<le> i \<and> i + 1 < int (length stops)"
    using assms n_def i_def by (rule interp_index)
  obtain a0 a1 a2 where a: "stopAt stops i = Some (a0, a1, a2)"
    using i by (cases "stops ! nat i") (simp add: stopAt_def)
  obtain b0 b1 b2 where b: "stopAt stops (i + 1) = Some (b0, b1, b2)"
    using i by (cases "stops ! nat (i + 1)") (simp add: stopAt_def)
  show ?thesis using interp_unfold [OF n_def i_def a b] by simp
qed

lemma interp_0:
  assumes "2 \<le> length stops"
  shows "interp 0 stops = Inr (hd stops)"
proof -
  define n where "n = int (length stops) - 1"
  define i where "i = min \<lfloor>0 * real_of_int n\<rfloor> (n - 1)"
  have i0: "i = 0" using assms by (simp add: i_def n_def)
  obtain a0 a1 a2 where h: "hd stops = (a0, a1, a2)" by (cases "hd stops")
  have ne: "stops \<noteq> []" using assms by auto
  have a: "stopAt stops i = Some (a0, a1, a2)"
    using assms ne h by (simp add: i0 stopAt_def hd_conv_nth)
  obtain b0 b1 b2 where b: "stopAt stops (i + 1) = Some (b0, b1, b2)"
    using assms by (cases "stops ! nat (i + 1)") (simp add: stopAt_def i0)
  show ?thesis using interp_unfold [OF n_def i_def a b] by (simp add: i0 h)
qed

lemma interp_1:
  assumes "2 \<le> length stops"
  shows "interp 1 stops = Inr (last stops)"
proof -
  define n where "n = int (length stops) - 1"
  define i where "i = min \<lfloor>1 * real_of_int n\<rfloor> (n - 1)"
  have i1: "i = n - 1" by (simp add: i_def)
  have n: "1 \<le> n" using assms by (simp add: n_def)
  obtain a0 a1 a2 where a: "stopAt stops i = Some (a0, a1, a2)"
    using n by (cases "stops ! nat i") (simp add: stopAt_def i1 n_def)
  obtain b0 b1 b2 where h: "last stops = (b0, b1, b2)" by (cases "last stops")
  have ne: "stops \<noteq> []" using assms by auto
  have "nat (i + 1) = length stops - 1" by (simp add: i1 n_def)
  then have "stops ! nat (i + 1) = last stops" using ne by (simp add: last_conv_nth)
  then have b: "stopAt stops (i + 1) = Some (b0, b1, b2)"
    using n h ne by (simp add: stopAt_def i1 n_def)
  have f: "1 * real_of_int n - real_of_int i = 1" by (simp add: i1)
  show ?thesis using interp_unfold [OF n_def i_def a b] by (simp only: f h) simp
qed

lemma renderPixel_low:
  "(x + 1) / 2 \<le> 0 \<Longrightarrow>
   renderPixel (Some x) name = (case hd (colormapStops name) of (r, g, b) \<Rightarrow> Inr (r, g, b, 255))"
  using interp_0 [OF colormapStops_length, of name]
  by (simp add: renderPixel_def applyColormap_stops max_absorb1 min_absorb2 split: prod.splits)

lemma renderPixel_high:
  "1 \<le> (x + 1) / 2 \<Longrightarrow>
   renderPixel (Some x) name = (case last (colormapStops name) of (r, g, b) \<Rightarrow> Inr (r, g, b, 255))"
  using interp_1 [OF colormapStops_length, of name]
  by (simp add: renderPixel_def applyColormap_stops min_absorb1 split: prod.splits)

text \<open>
  Claim C9, as amended. For every palette and every \<open>t \<ge> 0\<close> the interpolation is
  defined: the two stops it reads, at \<open>i = min(floor(t * n), n - 1)\<close> and at \<open>i + 1\<close>, are
  inside the array of stops. The interpolation itself does not clamp \<open>t\<close>; the clamping
  into \<open>[0, 1]\<close> is done by the raster renderer before the lookup, so that a sample whose
  normalised value \<open>(v + 1) / 2\<close> is below 0 is painted with the colour of the first stop
  and one whose normalised value is above 1 with the colour of the last stop.
\<close>

theorem applyColormap_defined_renderer_clamps:
  "(0 \<le> t \<longrightarrow>
      (\<exists>c. applyColormap t name = Inr c) \<and>
      0 \<le> min \<lfloor>t * real_of_int (int (length (colormapStops name)) - 1)\<rfloor>
               (int (length (colormapStops name)) - 1 - 1) \<and>
      min \<lfloor>t * real_of_int (int (length (colormapStops name)) - 1)\<rfloor>
          (int (length (colormapStops name)) - 1 - 1) + 1 < int (length (colormapStops name))) \<and>
   ((x + 1) / 2 < 0 \<longrightarrow>
      renderPixel (Some x) name =
        (case hd (colormapStops name) of (r, g, b) \<Rightarrow> Inr (r, g, b, 255))) \<and>
   (1 < (x + 1) / 2 \<longrightarrow>
      renderPixel (Some x) name =
        (case last (colormapStops name) of (r, g, b) \<Rightarrow> Inr (r, g, b, 255)))"
proof (intro conjI impI)
  assume t: "0 \<le> t"
  show "\<exists>c. applyColormap t name = Inr c"
    unfolding applyColormap_stops using colormapStops_length t by (rule interp_defined)
  have "0 \<le> min \<lfloor>t * real_of_int (int (length (colormapStops name)) - 1)\<rfloor>
               (int (length (colormapStops name)) - 1 - 1) \<and>
      min \<lfloor>t * real_of_int (int (length (colormapStops name)) - 1)\<rfloor>
          (int (length (colormapStops name)) - 1 - 1) + 1 < int (length (colormapStops name))"
    using colormapStops_length t refl refl by (rule interp_index)
  then show "0 \<le> min \<lfloor>t * real_of_int (int (length (colormapStops name)) - 1)\<rfloor>
               (int (length (colormapStops name)) - 1 - 1)"
    and "min \<lfloor>t * real_of_int (int (length (colormapStops name)) - 1)\<rfloor>
          (int (length (colormapStops name)) - 1 - 1) + 1 < int (length (colormapStops name))"
    by blast+
next
  assume "(x + 1) / 2 < 0"
  then have "(x + 1) / 2 \<le> 0" by simp
  then show "renderPixel (Some x) name =
      (case hd (colormapStops name) of (r, g, b) \<Rightarrow> Inr (r, g, b, 255))"
    by (rule renderPixel_low)
next
  assume "1 < (x + 1) / 2"
  then have "1 \<le> (x + 1) / 2" by simp
  then show "renderPixel (Some x) name =
      (case last (colormapStops name) of (r, g, b) \<Rightarrow> Inr (r, g, b, 255))"
    by (rule renderPixel_high)
qed

theorem applyColormap_defined_renderer_clamps_witness:
  "applyColormap (1 / 3) ''viridis'' = Inr (50, 103, 139) \<and>
   renderPixel (Some (- 2)) ''viridis'' = Inr (68, 1, 84, 255) \<and>
   renderPixel (Some 3) ''viridis'' = Inr (253, 231, 37, 255)"
proof -
  have a: "applyColormap (1 / 3) ''viridis'' = Inr (50, 103, 139)"
    by (simp add: applyColormap_def interp_def stopAt_def Let_def round_def)
  have t: "(0 :: real) \<le> 1 / 3" and lo: "((- 2 :: real) + 1) / 2 < 0"
    and hi: "(1 :: real) < (3 + 1) / 2"
    by simp_all
  from applyColormap_defined_renderer_clamps [of "1 / 3" "''viridis''"] t have "\<exists>c. applyColormap (1 / 3) ''viridis'' = Inr c"
    by blast
  moreover
  from applyColormap_defined_renderer_clamps [of "1 / 3" "''viridis''" "- 2"] lo
  have "renderPixel (Some (- 2)) ''viridis'' =
      (case hd (colormapStops ''viridis'') of (r, g, b) \<Rightarrow> Inr (r, g, b, 255))"
    by blast
  then have "renderPixel (Some (- 2)) ''viridis'' = Inr (68, 1, 84, 255)"
    by (simp add: colormapStops_def)
  moreover
  from applyColormap_defined_renderer_clamps [of "1 / 3" "''viridis''" 3] hi
  have "renderPixel (Some 3) ''viridis'' =
      (case last (colormapStops ''viridis'') of (r, g, b) \<Rightarrow> Inr (r, g, b, 255))"
    by blast
  then have "renderPixel (Some 3) ''viridis'' = Inr (253, 231, 37, 255)"
    by (simp add: colormapStops_def)
  ultimately show ?thesis using a by blast
qed

theorem applyColormap_clamp_counterexample:
  "applyColormap (- 1 / 2) ''greens'' = Inl TypeError \<and>
   hd (colormapStops ''greens'') = (247, 252, 245) \<and>
   applyColormap 2 ''greens'' = Inr (- 247, - 34, - 157) \<and>
   last (colormapStops ''greens'') = (0, 109, 44)"
  by (simp add: applyColormap_def interp_def stopAt_def colormapStops_def Let_def)

text \<open>
  Claim C10. For every palette name, the colormap at \<open>t = 0\<close> is exactly the first colour
  stop of the palette and at \<open>t = 1\<close> exactly its last colour stop; an unknown name is
  the default palette. The colormap is a function of \<open>t\<close> and the name alone: it is the
  interpolation over the stops of the named palette, and equal arguments give equal
  colours.
\<close>

theorem applyColormap_endpoints:
  "applyColormap 0 name = Inr (hd (colormapStops name)) \<and>
   applyColormap 1 name = Inr (last (colormapStops name)) \<and>
   applyColormap t name = interp t (colormapStops name) \<and>
   (\<forall>t' name'. t' = t \<and> name' = name \<longrightarrow> applyColormap t' name' = applyColormap t name)"
proof (intro conjI)
  show "applyColormap 0 name = Inr (hd (colormapStops name))"
    unfolding applyColormap_stops using colormapStops_length by (rule interp_0)
  show "applyColormap 1 name = Inr (last (colormapStops name))"
    unfolding applyColormap_stops using colormapStops_length by (rule interp_1)
  show "applyColormap t name = interp t (colormapStops name)"
    by (rule applyColormap_stops)
  show "\<forall>t' name'. t' = t \<and> name' = name \<longrightarrow> applyColormap t' name' = applyColormap t name"
    by simp
qed

theorem applyColormap_endpoints_witness:
  "applyColormap 0 ''greens'' = Inr (247, 252, 245) \<and>
   applyColormap 1 ''greens'' = Inr (0, 109, 44) \<and>
   applyColormap 0 ''viridis'' = Inr (68, 1, 84) \<and>
   applyColormap 1 ''viridis'' = Inr (253, 231, 37) \<and>
   applyColormap 0 ''spectral'' = Inr (158, 1, 66) \<and>
   applyColormap 1 ''spectral'' = Inr (94, 79, 162) \<and>
   applyColormap 0 ''ylgn'' = Inr (255, 255, 229) \<and>
   applyColormap 1 ''ylgn'' = Inr (0, 104, 55) \<and>
   applyColormap 0 ''rdylgn'' = Inr (165, 0, 38) \<and>
   applyColormap 1 ''rdylgn'' = Inr (0, 104, 55) \<and>
   applyColormap 0 ''jet'' = Inr (165, 0, 38) \<and>
   applyColormap 1 ''jet'' = Inr (0, 104, 55)"
  using
    applyColormap_endpoints [of "''greens''", THEN conjunct1]
    applyColormap_endpoints [of "''greens''", THEN conjunct2, THEN conjunct1]
    applyColormap_endpoints [of "''viridis''", THEN conjunct1]
    applyColormap_endpoints [of "''viridis''", THEN conjunct2, THEN conjunct1]
    applyColormap_endpoints [of "''spectral''", THEN conjunct1]
    applyColormap_endpoints [of "''spectral''", THEN conjunct2, THEN conjunct1]
    applyColormap_endpoints [of "''ylgn''", THEN conjunct1]
    applyColormap_endpoints [of "''ylgn''", THEN conjunct2, THEN conjunct1]
    applyColormap_endpoints [of "''rdylgn''", THEN conjunct1]
    applyColormap_endpoints [of "''rdylgn''", THEN conjunct2, THEN conjunct1]
    applyColormap_endpoints [of "''jet''", THEN conjunct1]
    applyColormap_endpoints [of "''jet''", THEN conjunct2, THEN conjunct1]
  by (simp add: colormapStops_def)

section \<open>Properties of the URL signing\<close>

lemma signUrl_rate_limited:
  assumes "\<forall>k. \<exists>h. fetch k = Response 429 h"
  shows "signUrl fetch = (Inl RateLimited, [800, 1600, 3200, 6400], 4)"
proof -
  have t: "tryBody (fetch k) = Continue" for k
    using assms [rule_format, of k] by (auto simp: tryBody_def res_ok_def)
  show ?thesis
    by (simp add: signUrl_def signUrlLoop.simps [of fetch] t MAX_RETRIES_def)
qed

text \<open>An HTTP error other than 429 on the first attempt: the call sleeps 800 ms and
  goes on with the second attempt.\<close>

lemma signUrl_http_error_retried:
  assumes "fetch 1 = Response status href" "\<not> res_ok status" "status \<noteq> 429"
  shows "signUrl fetch = signUrlLoop fetch 2 1600 [800]"
proof -
  have t: "tryBody (fetch 1) = Throw (HttpFailure status)"
    using assms by (simp add: tryBody_def)
  have "signUrlLoop fetch 1 800 [] = signUrlLoop fetch (1 + 1) (800 * 2) ([] @ [800])"
    by (subst signUrlLoop.simps) (simp add: t MAX_RETRIES_def del: One_nat_def)
  then show ?thesis by (simp add: signUrl_def numeral_2_eq_2)
qed

lemma signUrl_persistent_http_error:
  "signUrl (\<lambda>k. Response 500 []) = (Inl (HttpFailure 500), [800, 1600, 3200], 4)"
  by (simp add: signUrl_def signUrlLoop.simps tryBody_def res_ok_def MAX_RETRIES_def)

text \<open>
  Claim C7. A response with status 429 is retried with delays of 800 ms, 1600 ms, ...
  and at most four attempts (lemma \<open>signUrl_rate_limited\<close>). An HTTP error other than 429
  is claimed not to be retried and to end the call at once. In the source the
  \<^verbatim>\<open>throw\<close> for such a response is inside the \<^verbatim>\<open>try\<close> block, so the \<^verbatim>\<open>catch\<close> of the same
  iteration receives it and, before the last attempt, sleeps and goes on: with a status
  500 for the first request and a status 200 for the second, \<^verbatim>\<open>signUrl\<close> sleeps 800 ms,
  sends the second request and returns the signed URL.
\<close>

theorem signUrl_retries_http_error:
  "signUrl (\<lambda>k. if k = 1 then Response 500 [] else Response 200 ''signed'') =
     (Inr ''signed'', [800], 2)"
  by (simp add: signUrl_def signUrlLoop.simps tryBody_def res_ok_def MAX_RETRIES_def)

end
